theory Spec2Isabelle
  imports Complex_Main
begin

section \<open>Runtime values\<close>

text \<open>
  The checkers take an input of the TypeScript type \<open>unknown\<close>. The values modelled are
  the ones a JSON decoder yields (null, booleans, numbers, strings, dense arrays, plain
  objects whose prototype is \<open>Object.prototype\<close>), together with \<open>undefined\<close>, the
  non-finite numbers, bigints and symbols. A plain object is the list of its own
  enumerable properties, with distinct keys, in \<open>for ... in\<close> enumeration order. The
  definitions are total on lists that repeat a key: there a read returns the first entry.
\<close>

datatype jsnumber = Finite rat | NaN | PosInfinity | NegInfinity

datatype jsval =
    VUndefined
  | VNull
  | VBoolean bool
  | VNumber jsnumber
  | VString string
  | VBigInt int
  | VSymbol string
  | VArray "jsval list"
  | VObject "(string \<times> jsval) list"

text \<open>
  Reading a property of a plain object can also yield a function inherited from
  \<open>Object.prototype\<close>. Such a function is never stored inside a decoded value, so it is a
  separate alternative of the input type, named by the member it was read from.
\<close>

datatype unknown = Data jsval | NativeFunction string

datatype error = TypeError | Error string

subsection \<open>Language operations the source relies on\<close>

fun typeof :: "unknown \<Rightarrow> string" where
  "typeof (Data VUndefined) = ''undefined''"
| "typeof (Data VNull) = ''object''"
| "typeof (Data (VBoolean b)) = ''boolean''"
| "typeof (Data (VNumber n)) = ''number''"
| "typeof (Data (VString s)) = ''string''"
| "typeof (Data (VBigInt i)) = ''bigint''"
| "typeof (Data (VSymbol d)) = ''symbol''"
| "typeof (Data (VArray xs)) = ''object''"
| "typeof (Data (VObject ps)) = ''object''"
| "typeof (NativeFunction f) = ''function''"

text \<open>\<open>Number.isFinite\<close>: true only for a value of type number that is finite.\<close>

fun Number_isFinite :: "unknown \<Rightarrow> bool" where
  "Number_isFinite (Data (VNumber (Finite q))) = True"
| "Number_isFinite _ = False"

fun Array_isArray :: "unknown \<Rightarrow> bool" where
  "Array_isArray (Data (VArray xs)) = True"
| "Array_isArray _ = False"

text \<open>The elements of an array input, and the own properties of an object input.\<close>

fun elements :: "unknown \<Rightarrow> jsval list" where
  "elements (Data (VArray xs)) = xs"
| "elements _ = []"

fun own_properties :: "unknown \<Rightarrow> (string \<times> jsval) list" where
  "own_properties (Data (VObject ps)) = ps"
| "own_properties _ = []"

text \<open>
  The property names of \<open>Object.prototype\<close>, all of them functions and none of them
  enumerable. The repository runs on Deno, which removes the \<open>__proto__\<close> accessor.
\<close>

definition object_prototype_members :: "string list" where
  "object_prototype_members =
     [''constructor'', ''hasOwnProperty'', ''isPrototypeOf'', ''propertyIsEnumerable'',
      ''toLocaleString'', ''toString'', ''valueOf'', ''__defineGetter__'',
      ''__defineSetter__'', ''__lookupGetter__'', ''__lookupSetter__'']"

text \<open>
  \<open>key in obj\<close> for a plain object: the key is an own property or is found on the
  prototype. \<open>for (const key in obj)\<close> enumerates the own properties only, since the
  inherited ones are not enumerable.
\<close>

definition has_property :: "string \<Rightarrow> (string \<times> 'a) list \<Rightarrow> bool" where
  "has_property key obj \<longleftrightarrow>
     key \<in> set (map fst obj) \<or> key \<in> set object_prototype_members"

definition for_in :: "(string \<times> 'a) list \<Rightarrow> string list" where
  "for_in obj = map fst obj"

text \<open>\<open>input[property]\<close> on a plain object: own property, inherited member, or undefined.\<close>

definition get_property :: "(string \<times> jsval) list \<Rightarrow> string \<Rightarrow> unknown" where
  "get_property obj key =
     (case map_of obj key of
        Some v \<Rightarrow> Data v
      | None \<Rightarrow>
          if key \<in> set object_prototype_members then NativeFunction key
          else Data VUndefined)"

text \<open>
  A template literal converts each interpolated value with the language's ToString, which
  throws a TypeError for a symbol and for an object that cannot be converted to a
  primitive. A plain object is converted by its \<open>toString\<close> method and then its
  \<open>valueOf\<close> method: the inherited \<open>toString\<close> returns a string, but an own
  \<open>toString\<close> property of a decoded object is not callable, and the \<open>valueOf\<close> left
  (not callable when own, returning the object itself when inherited) yields no
  primitive. An array is converted by joining the conversions of its elements.
\<close>

fun to_string_throws :: "jsval \<Rightarrow> bool" where
  "to_string_throws (VSymbol d) = True"
| "to_string_throws (VArray xs) = list_ex to_string_throws xs"
| "to_string_throws (VObject ps) = (''toString'' \<in> set (map fst ps))"
| "to_string_throws _ = False"

fun template_throws :: "unknown \<Rightarrow> bool" where
  "template_throws (Data v) = to_string_throws v"
| "template_throws (NativeFunction f) = False"

section \<open>Primitive checkers\<close>

definition isString :: "unknown \<Rightarrow> bool" where
  "isString input \<longleftrightarrow> typeof input = ''string''"

definition isNumber :: "unknown \<Rightarrow> bool" where
  "isNumber input \<longleftrightarrow> Number_isFinite input"

definition isObject :: "unknown \<Rightarrow> bool" where
  "isObject input \<longleftrightarrow>
     input \<noteq> Data VNull \<and> typeof input = ''object'' \<and> \<not> Array_isArray input"

definition isArray :: "unknown \<Rightarrow> bool" where
  "isArray input \<longleftrightarrow> Array_isArray input"

definition isNull :: "unknown \<Rightarrow> bool" where
  "isNull input \<longleftrightarrow> input = Data VNull"

definition isBoolean :: "unknown \<Rightarrow> bool" where
  "isBoolean input \<longleftrightarrow> typeof input = ''boolean''"

definition isUndefined :: "unknown \<Rightarrow> bool" where
  "isUndefined input \<longleftrightarrow> input = Data VUndefined"

section \<open>Shapes\<close>

text \<open>
  A call of \<open>console.warn\<close> appends one message to the console. A message is kept as
  the template it was written from and the values interpolated into it.
\<close>

datatype diagnostic =
    NotAnArray string
  | BadElement string jsval string string
  | NotAnObject string
  | UnknownProperty string string
  | MissingProperty string string string
  | BadProperty string string unknown string string

type_synonym console = "diagnostic list"

definition warn :: "diagnostic \<Rightarrow> console \<Rightarrow> console" where
  "warn d c = c @ [d]"

text \<open>
  A check function runs against the console and either returns a boolean (\<open>Inr\<close>) or
  throws (\<open>Inl\<close>); the console it leaves behind is returned in both cases.
\<close>

type_synonym check = "unknown \<Rightarrow> console \<Rightarrow> console \<times> (error + bool)"

text \<open>
  The object a builder returns. The builders cast an object literal to the interface
  type, so a field the literal does not mention is absent (\<open>None\<close>) at run time.
\<close>

datatype shape =
  Shape (typename: string) (checkFn: check) (optional_field: "bool option")
    (inner: "shape option") (members: "shape option")
    (properties: "(string \<times> shape) list option")

text \<open>The primitive checkers have no effect and never throw.\<close>

definition static :: "(unknown \<Rightarrow> bool) \<Rightarrow> check" where
  "static p = (\<lambda>input c. (c, Inr (p input)))"

text \<open>The truth value of \<open>shape.optional\<close>, an absent field reading as undefined.\<close>

definition truthy :: "bool option \<Rightarrow> bool" where
  "truthy flag = (case flag of None \<Rightarrow> False | Some b \<Rightarrow> b)"

section \<open>Shape builders\<close>

definition optional :: "shape \<Rightarrow> shape" where
  "optional shape =
     Shape (typename shape @ '' | undefined'')
       (\<lambda>input c. if isUndefined input then (c, Inr True) else checkFn shape input c)
       (Some True) (Some shape) None None"

definition nullable :: "shape \<Rightarrow> shape" where
  "nullable shape =
     Shape (typename shape @ '' | null'')
       (\<lambda>input c. if isNull input then (c, Inr True) else checkFn shape input c)
       None (Some shape) None None"

definition number :: shape where
  "number = Shape ''number'' (static isNumber) None None None None"

definition string :: shape where
  "string = Shape ''string'' (static isString) None None None None"

definition boolean :: shape where
  "boolean = Shape ''boolean'' (static isBoolean) None None None None"

text \<open>
  \<open>Array.prototype.every\<close> on a dense array: the callback runs on the elements in order
  and the iteration stops at the first element for which it returns false or throws.
\<close>

fun every :: "(jsval \<Rightarrow> console \<Rightarrow> console \<times> (error + bool)) \<Rightarrow> jsval list \<Rightarrow> console \<Rightarrow>
    console \<times> (error + bool)" where
  "every callback [] c = (c, Inr True)"
| "every callback (entry # rest) c =
     (case callback entry c of
        (c', Inl e) \<Rightarrow> (c', Inl e)
      | (c', Inr ok) \<Rightarrow> if ok then every callback rest c' else (c', Inr False))"

text \<open>The callback the array check hands to \<open>every\<close>.\<close>

definition arrayEntryCheck :: "string \<Rightarrow> shape \<Rightarrow> jsval \<Rightarrow> console \<Rightarrow> console \<times> (error + bool)" where
  "arrayEntryCheck tn shape entry c =
     (case checkFn shape (Data entry) c of
        (c', Inl e) \<Rightarrow> (c', Inl e)
      | (c', Inr ok) \<Rightarrow>
          if \<not> ok then
            (if template_throws (Data entry) then (c', Inl TypeError)
             else (warn (BadElement tn entry (typeof (Data entry)) (typename shape)) c',
                   Inr False))
          else (c', Inr True))"

definition arrayCheckFn :: "string \<Rightarrow> shape \<Rightarrow> check" where
  "arrayCheckFn tn shape input c =
     (if \<not> isArray input then (warn (NotAnArray tn) c, Inr False)
      else every (arrayEntryCheck tn shape) (elements input) c)"

definition array :: "shape \<Rightarrow> shape" where
  "array shape =
     (let tn = ''Array<'' @ typename shape @ ''>''
      in Shape tn (arrayCheckFn tn shape) None None (Some shape) None)"

text \<open>
  The second loop of the object check, over the names \<open>for ... in\<close> enumerates on the
  property map. \<open>properties[property]\<close> is an own-property read; were it undefined,
  reading a field of it would throw.
\<close>

fun propertyLoop :: "string \<Rightarrow> (string \<times> shape) list \<Rightarrow> (string \<times> jsval) list \<Rightarrow> string list \<Rightarrow>
    console \<Rightarrow> console \<times> (error + bool)" where
  "propertyLoop tn props input [] c = (c, Inr True)"
| "propertyLoop tn props input (property # rest) c =
     (let field = get_property input property in
      case map_of props property of
        None \<Rightarrow> (c, Inl TypeError)
      | Some shape \<Rightarrow>
          if \<not> has_property property input \<and> \<not> truthy (optional_field shape) then
            (warn (MissingProperty tn property (typename shape)) c, Inr False)
          else
            (case checkFn shape field c of
               (c', Inl e) \<Rightarrow> (c', Inl e)
             | (c', Inr ok) \<Rightarrow>
                 if \<not> ok then
                   (if template_throws field then (c', Inl TypeError)
                    else (warn (BadProperty tn property field (typeof field) (typename shape)) c',
                          Inr False))
                 else propertyLoop tn props input rest c'))"

text \<open>
  The check function of an object shape. The first loop returns at the first input
  property that is not \<open>in\<close> the property map.
\<close>

definition objectCheckFn :: "string \<Rightarrow> (string \<times> shape) list \<Rightarrow> check" where
  "objectCheckFn tn props input c =
     (if \<not> isObject input then (warn (NotAnObject tn) c, Inr False)
      else
        (case find (\<lambda>inputProperty. \<not> has_property inputProperty props)
                (for_in (own_properties input)) of
           Some inputProperty \<Rightarrow> (warn (UnknownProperty tn inputProperty) c, Inr False)
         | None \<Rightarrow> propertyLoop tn props (own_properties input) (for_in props) c))"

text \<open>
  \<open>object\<close> is called with a property map, or with a name and a property map. The first
  argument is a string (\<open>Inl\<close>) or a property map (\<open>Inr\<close>), the second may be missing.
  A property map is a plain object as well: the list of its own properties, each a name
  and a shape.
\<close>

definition object :: "string + (string \<times> shape) list \<Rightarrow> (string \<times> shape) list option \<Rightarrow>
    error + shape" where
  "object nameOrProps maybeProperties =
     (case
        (case nameOrProps of
           Inl s \<Rightarrow>
             (case maybeProperties of
                Some p \<Rightarrow> Inr (Some s, p)
              | None \<Rightarrow> Inl (Error ''Bad arguments somehow''))
         | Inr p \<Rightarrow> Inr (None, p))
      of
        Inl e \<Rightarrow> Inl e
      | Inr (name, props) \<Rightarrow>
          (let tn = (case name of None \<Rightarrow> ''Object'' | Some s \<Rightarrow> s)
           in Inr (Shape tn (objectCheckFn tn props) None None None (Some props))))"

section \<open>The shapes the builders produce\<close>

inductive built :: "shape \<Rightarrow> bool" where
  built_string: "built string"
| built_number: "built number"
| built_boolean: "built boolean"
| built_optional: "built shape \<Longrightarrow> built (optional shape)"
| built_nullable: "built shape \<Longrightarrow> built (nullable shape)"
| built_array: "built shape \<Longrightarrow> built (array shape)"
| built_object:
    "object nameOrProps maybeProperties = Inr shape \<Longrightarrow> properties shape = Some props \<Longrightarrow>
     (\<forall>p \<in> set props. built (snd p)) \<Longrightarrow> built shape"

section \<open>The example program\<close>

definition User :: "error + shape" where
  "User = object (Inl ''User'')
     (Some [(''name'', string), (''age'', number), (''hasSignedIn'', boolean),
            (''permissions'', optional (array string))])"

text \<open>The value \<open>JSON.parse\<close> returns for the literal of the example program.\<close>

definition parsed :: unknown where
  "parsed = Data (VObject
     [(''name'', VString ''jakob''), (''age'', VNumber (Finite 29)),
      (''hasSignedIn'', VBoolean True),
      (''permissions'', VArray [VString ''developer'', VString ''admin''])])"

section \<open>Console independence\<close>

text \<open>
  A check function is independent of the console when, for every input, the messages it
  appends and the result it gives are the same whatever the console held before.
\<close>

definition console_independent :: "check \<Rightarrow> bool" where
  "console_independent f \<longleftrightarrow> (\<forall>v. \<exists>d r. \<forall>c. f v c = (c @ d, r))"

section \<open>Checks of built shapes do not depend on the console\<close>

lemma console_independentD:
  "console_independent f \<Longrightarrow> \<exists>d r. \<forall>c. f v c = (c @ d, r)"
  unfolding console_independent_def by blast

lemma console_independentI:
  assumes "\<And>v. \<exists>d r. \<forall>c. f v c = (c @ d, r)"
  shows "console_independent f"
  using assms unfolding console_independent_def by blast

lemma static_independent: "console_independent (static p)"
  by (rule console_independentI) (simp add: static_def)

lemma every_independent:
  assumes cb: "\<And>e. \<exists>d r. \<forall>c. cb e c = (c @ d, r)"
  shows "\<exists>d r. \<forall>c. every cb xs c = (c @ d, r)"
proof (induction xs)
  case Nil
  have "\<forall>c. every cb [] c = (c @ [], Inr True)" by simp
  then show ?case by blast
next
  case (Cons x xs)
  from cb [of x] obtain d r where here: "\<And>c. cb x c = (c @ d, r)" by blast
  from Cons.IH obtain d' r' where rest: "\<And>c. every cb xs c = (c @ d', r')" by blast
  show ?case
  proof (cases r)
    case (Inl e)
    then have "\<forall>c. every cb (x # xs) c = (c @ d, Inl e)" by (simp add: here)
    then show ?thesis by blast
  next
    case (Inr ok)
    show ?thesis
    proof (cases ok)
      case True
      with Inr have "\<forall>c. every cb (x # xs) c = (c @ (d @ d'), r')" by (simp add: here rest)
      then show ?thesis by blast
    next
      case False
      with Inr have "\<forall>c. every cb (x # xs) c = (c @ d, Inr False)" by (simp add: here)
      then show ?thesis by blast
    qed
  qed
qed

lemma arrayEntryCheck_independent:
  assumes "console_independent (checkFn shape)"
  shows "\<exists>d r. \<forall>c. arrayEntryCheck tn shape e c = (c @ d, r)"
proof -
  from console_independentD [OF assms, of "Data e"]
  obtain d r where here: "\<And>c. checkFn shape (Data e) c = (c @ d, r)"
    by blast
  show ?thesis
  proof (cases r)
    case (Inl err)
    then have "\<forall>c. arrayEntryCheck tn shape e c = (c @ d, Inl err)"
      by (simp add: arrayEntryCheck_def here)
    then show ?thesis by blast
  next
    case (Inr ok)
    show ?thesis
    proof (cases ok)
      case True
      with Inr have "\<forall>c. arrayEntryCheck tn shape e c = (c @ d, Inr True)"
        by (simp add: arrayEntryCheck_def here)
      then show ?thesis by blast
    next
      case False
      show ?thesis
      proof (cases "template_throws (Data e)")
        case throws: True
        with Inr False have "\<forall>c. arrayEntryCheck tn shape e c = (c @ d, Inl TypeError)"
          by (simp add: arrayEntryCheck_def here)
        then show ?thesis by blast
      next
        case renders: False
        with Inr False have "\<forall>c. arrayEntryCheck tn shape e c =
            (c @ (d @ [BadElement tn e (typeof (Data e)) (typename shape)]), Inr False)"
          by (simp add: arrayEntryCheck_def here warn_def)
        then show ?thesis by blast
      qed
    qed
  qed
qed

lemma arrayCheckFn_independent:
  assumes "console_independent (checkFn shape)"
  shows "console_independent (arrayCheckFn tn shape)"
proof (rule console_independentI)
  fix v
  show "\<exists>d r. \<forall>c. arrayCheckFn tn shape v c = (c @ d, r)"
  proof (cases "isArray v")
    case True
    have "\<exists>d r. \<forall>c. every (arrayEntryCheck tn shape) (elements v) c = (c @ d, r)"
      by (rule every_independent) (rule arrayEntryCheck_independent [OF assms])
    with True show ?thesis by (simp add: arrayCheckFn_def)
  next
    case False
    then have "\<forall>c. arrayCheckFn tn shape v c = (c @ [NotAnArray tn], Inr False)"
      by (simp add: arrayCheckFn_def warn_def)
    then show ?thesis by blast
  qed
qed

lemma propertyLoop_independent:
  assumes props: "\<forall>p \<in> set props. console_independent (checkFn (snd p))"
  shows "\<exists>d r. \<forall>c. propertyLoop tn props input keys c = (c @ d, r)"
proof (induction keys)
  case Nil
  have "\<forall>c. propertyLoop tn props input [] c = (c @ [], Inr True)" by simp
  then show ?case by blast
next
  case (Cons k keys)
  from Cons.IH obtain d' r'
    where rest: "\<And>c. propertyLoop tn props input keys c = (c @ d', r')" by blast
  show ?case
  proof (cases "map_of props k")
    case None
    then have "\<forall>c. propertyLoop tn props input (k # keys) c = (c @ [], Inl TypeError)"
      by simp
    then show ?thesis by blast
  next
    case (Some s)
    then have "(k, s) \<in> set props" by (rule map_of_SomeD)
    with props have "console_independent (checkFn (snd (k, s)))" by blast
    then have ind: "console_independent (checkFn s)" by simp
    from console_independentD [OF ind, of "get_property input k"]
  obtain d r where here: "\<And>c. checkFn s (get_property input k) c = (c @ d, r)"
    by blast
    show ?thesis
    proof (cases "\<not> has_property k input \<and> \<not> truthy (optional_field s)")
      case True
      with Some have "\<forall>c. propertyLoop tn props input (k # keys) c =
          (c @ [MissingProperty tn k (typename s)], Inr False)"
        by (simp add: warn_def)
      then show ?thesis by blast
    next
      case False
      then have present: "(\<not> has_property k input \<and> \<not> truthy (optional_field s)) = False"
        by simp
      show ?thesis
      proof (cases r)
        case (Inl e)
        with Some have "\<forall>c. propertyLoop tn props input (k # keys) c = (c @ d, Inl e)"
          by (simp add: Let_def present here)
        then show ?thesis by blast
      next
        case (Inr ok)
        show ?thesis
        proof (cases ok)
          case True
          with Some Inr have "\<forall>c. propertyLoop tn props input (k # keys) c = (c @ (d @ d'), r')"
            by (simp add: Let_def present here rest)
          then show ?thesis by blast
        next
          case failed: False
          show ?thesis
          proof (cases "template_throws (get_property input k)")
            case True
            with Some Inr failed
            have "\<forall>c. propertyLoop tn props input (k # keys) c = (c @ d, Inl TypeError)"
              by (simp add: Let_def present here)
            then show ?thesis by blast
          next
            case False
            with Some Inr failed
            have "\<forall>c. propertyLoop tn props input (k # keys) c =
                (c @ (d @ [BadProperty tn k (get_property input k)
                   (typeof (get_property input k)) (typename s)]), Inr False)"
              by (simp add: Let_def present here warn_def)
            then show ?thesis by blast
          qed
        qed
      qed
    qed
  qed
qed

lemma objectCheckFn_independent:
  assumes "\<forall>p \<in> set props. console_independent (checkFn (snd p))"
  shows "console_independent (objectCheckFn tn props)"
proof (rule console_independentI)
  fix v
  show "\<exists>d r. \<forall>c. objectCheckFn tn props v c = (c @ d, r)"
  proof (cases "isObject v")
    case False
    then have "\<forall>c. objectCheckFn tn props v c = (c @ [NotAnObject tn], Inr False)"
      by (simp add: objectCheckFn_def warn_def)
    then show ?thesis by blast
  next
    case True
    show ?thesis
    proof (cases "find (\<lambda>inputProperty. \<not> has_property inputProperty props)
                (for_in (own_properties v))")
      case None
      with True propertyLoop_independent [OF assms, of tn "own_properties v" "for_in props"]
      show ?thesis by (simp add: objectCheckFn_def)
    next
      case (Some k)
      with True have "\<forall>c. objectCheckFn tn props v c = (c @ [UnknownProperty tn k], Inr False)"
        by (simp add: objectCheckFn_def warn_def)
      then show ?thesis by blast
    qed
  qed
qed

lemma object_result:
  assumes "object nameOrProps maybeProperties = Inr shape"
  obtains tn props where "shape = Shape tn (objectCheckFn tn props) None None None (Some props)"
  using assms by (auto simp: object_def Let_def split: sum.splits option.splits)

lemma optional_independent:
  assumes "console_independent (checkFn shape)"
  shows "console_independent (checkFn (optional shape))"
proof (rule console_independentI)
  fix v
  from console_independentD [OF assms, of "v"]
  obtain d r where here: "\<And>c. checkFn shape v c = (c @ d, r)"
    by blast
  show "\<exists>d r. \<forall>c. checkFn (optional shape) v c = (c @ d, r)"
  proof (cases "isUndefined v")
    case True
    then have "\<forall>c. checkFn (optional shape) v c = (c @ [], Inr True)"
      by (simp add: optional_def)
    then show ?thesis by blast
  next
    case False
    then have "\<forall>c. checkFn (optional shape) v c = (c @ d, r)"
      by (simp add: optional_def here)
    then show ?thesis by blast
  qed
qed

lemma nullable_independent:
  assumes "console_independent (checkFn shape)"
  shows "console_independent (checkFn (nullable shape))"
proof (rule console_independentI)
  fix v
  from console_independentD [OF assms, of "v"]
  obtain d r where here: "\<And>c. checkFn shape v c = (c @ d, r)"
    by blast
  show "\<exists>d r. \<forall>c. checkFn (nullable shape) v c = (c @ d, r)"
  proof (cases "isNull v")
    case True
    then have "\<forall>c. checkFn (nullable shape) v c = (c @ [], Inr True)"
      by (simp add: nullable_def)
    then show ?thesis by blast
  next
    case False
    then have "\<forall>c. checkFn (nullable shape) v c = (c @ d, r)"
      by (simp add: nullable_def here)
    then show ?thesis by blast
  qed
qed

lemma built_console_independent: "built shape \<Longrightarrow> console_independent (checkFn shape)"
proof (induction rule: built.induct)
  case built_string
  show ?case by (simp add: string_def static_independent)
next
  case built_number
  show ?case by (simp add: number_def static_independent)
next
  case built_boolean
  show ?case by (simp add: boolean_def static_independent)
next
  case (built_optional shape)
  then show ?case by (simp add: optional_independent)
next
  case (built_nullable shape)
  then show ?case by (simp add: nullable_independent)
next
  case (built_array shape)
  then show ?case
    by (simp add: array_def Let_def arrayCheckFn_independent)
next
  case (built_object nameOrProps maybeProperties shape props)
  from built_object(1) obtain tn ps
    where sh: "shape = Shape tn (objectCheckFn tn ps) None None None (Some ps)"
    by (rule object_result)
  with built_object(2) have "ps = props" by simp
  with sh built_object(3) show ?case
    by (simp add: objectCheckFn_independent)
qed

section \<open>Evaluation\<close>

text \<open>
  The defining equations that evaluate a check on a concrete input.
\<close>

lemmas builder_defs = object_def array_def string_def number_def boolean_def optional_def
  nullable_def Let_def

lemmas check_defs = objectCheckFn_def arrayCheckFn_def arrayEntryCheck_def static_def
  isString_def isNumber_def isObject_def isArray_def isNull_def isBoolean_def isUndefined_def
  warn_def has_property_def for_in_def get_property_def truthy_def

section \<open>Object shapes: unknown keys\<close>

text \<open>
  An input key that is neither declared nor a member name of \<open>Object.prototype\<close> makes
  the object check return false.
\<close>

lemma unknown_key_rejected:
  assumes "k \<in> set (map fst ps)" and "\<not> has_property k props"
  shows "snd (objectCheckFn tn props (Data (VObject ps)) c) = Inr False"
proof -
  have "find (\<lambda>inputProperty. \<not> has_property inputProperty props) (map fst ps) \<noteq> None"
    using assms by (auto simp: find_None_iff)
  then show ?thesis
    by (auto simp: objectCheckFn_def isObject_def for_in_def)
qed

text \<open>
  C1 (closed-shape rule): an object shape is claimed to return false on every plain object
  that has a key the property map does not declare. The check of \<open>object({a: string()})\<close>
  returns false on \<open>{a: "x", b: 1}\<close>, naming \<open>b\<close>, as the claim says; on
  \<open>{a: "x", toString: 1}\<close> it returns true and emits no message, although
  \<open>toString\<close> is not declared.
\<close>

theorem closed_shape_misses_inherited_names:
  "\<exists>D. object (Inr [(''a'', string)]) None = Inr D
    \<and> checkFn D (Data (VObject [(''a'', VString ''x''), (''b'', VNumber (Finite 1))])) []
        = ([UnknownProperty ''Object'' ''b''], Inr False)
    \<and> checkFn D (Data (VObject [(''a'', VString ''x''), (''toString'', VNumber (Finite 1))])) []
        = ([], Inr True)"
  by (simp add: builder_defs check_defs object_prototype_members_def)

section \<open>Object shapes: declared properties\<close>

text \<open>
  A declared property that is not optional and that the \<open>in\<close> test does not find on the
  input keeps the object check from returning true.
\<close>

lemma missing_required_not_accepted_loop:
  assumes "k \<in> set keys" and "map_of props k = Some s"
    and "\<not> has_property k input" and "\<not> truthy (optional_field s)"
  shows "snd (propertyLoop tn props input keys c) \<noteq> Inr True"
  using assms(1)
proof (induction keys arbitrary: c)
  case Nil
  then show ?case by simp
next
  case (Cons k' keys)
  show ?case
  proof (cases "k' = k")
    case True
    with assms(2-4) show ?thesis by simp
  next
    case False
    with Cons.prems have later: "k \<in> set keys" by simp
    show ?thesis
    proof (cases "map_of props k'")
      case None
      then show ?thesis by simp
    next
      case (Some s')
      obtain c' r where res: "checkFn s' (get_property input k') c = (c', r)"
        by (cases "checkFn s' (get_property input k') c")
      show ?thesis
      proof (cases r)
        case (Inl e)
        with Some res show ?thesis by (simp add: Let_def)
      next
        case (Inr ok)
        with Some res Cons.IH [OF later, of c'] show ?thesis
          by (cases ok) (simp_all add: Let_def)
      qed
    qed
  qed
qed

lemma missing_required_not_accepted:
  assumes "map_of props k = Some s" and "\<not> has_property k ps"
    and "\<not> truthy (optional_field s)"
  shows "snd (objectCheckFn tn props (Data (VObject ps)) c) \<noteq> Inr True"
proof -
  from assms(1) have "k \<in> set (for_in props)"
    by (auto simp: for_in_def dest: map_of_SomeD intro: rev_image_eqI)
  then have "snd (propertyLoop tn props ps (for_in props) c) \<noteq> Inr True"
    using assms by (rule missing_required_not_accepted_loop)
  then show ?thesis
    by (simp add: objectCheckFn_def isObject_def split: option.split)
qed

text \<open>
  C2 (missing and optional properties): a missing property is claimed to fail the check
  exactly when its shape is not optional. The two examples of the claim evaluate as it
  says: \<open>object({a: string(), b: optional(number())})\<close> returns true on \<open>{a: "x"}\<close>
  and false on \<open>{a: "x", b: "y"}\<close>. For a declared name that \<open>Object.prototype\<close>
  also has, the check reads the inherited function where the key is missing:
  \<open>object({toString: optional(string())})\<close> returns false on the empty object.
\<close>

theorem optional_property_reads_inherited_member:
  "(\<exists>D. object (Inr [(''a'', string), (''b'', optional number)]) None = Inr D
      \<and> checkFn D (Data (VObject [(''a'', VString ''x'')])) [] = ([], Inr True)
      \<and> checkFn D (Data (VObject [(''a'', VString ''x''), (''b'', VString ''y'')])) []
          = ([BadProperty ''Object'' ''b'' (Data (VString ''y'')) ''string'' ''number | undefined''],
             Inr False))
   \<and> (\<exists>D. object (Inr [(''toString'', optional string)]) None = Inr D
      \<and> checkFn D (Data (VObject [])) []
          = ([BadProperty ''Object'' ''toString'' (NativeFunction ''toString'') ''function''
               ''string | undefined''], Inr False))"
  by (simp add: builder_defs check_defs object_prototype_members_def)

section \<open>Modifiers\<close>

text \<open>
  C3 (optional and nullable): for every shape \<open>S\<close>, \<open>optional(S)\<close> returns true on
  undefined and does on null exactly what \<open>S\<close> does; \<open>nullable(S)\<close> returns true on
  null and does on undefined exactly what \<open>S\<close> does.
\<close>

theorem optional_nullable_sentinels:
  "checkFn (optional S) (Data VUndefined) c = (c, Inr True)
   \<and> checkFn (optional S) (Data VNull) c = checkFn S (Data VNull) c
   \<and> checkFn (nullable S) (Data VNull) c = (c, Inr True)
   \<and> checkFn (nullable S) (Data VUndefined) c = checkFn S (Data VUndefined) c"
  by (simp add: optional_def nullable_def isUndefined_def isNull_def)

section \<open>Arrays\<close>

lemma every_true_iff:
  assumes cb: "\<And>e. \<exists>d r. \<forall>c. cb e c = (c @ d, r)"
  shows "snd (every cb xs c) = Inr True \<longleftrightarrow> (\<forall>e \<in> set xs. snd (cb e []) = Inr True)"
proof (induction xs arbitrary: c)
  case Nil
  show ?case by simp
next
  case (Cons x xs)
  from cb [of x] obtain d r where here: "\<And>c. cb x c = (c @ d, r)" by blast
  show ?case
  proof (cases r)
    case (Inl e)
    then show ?thesis by (simp add: here)
  next
    case (Inr ok)
    then show ?thesis using Cons.IH [of "c @ d"] by (cases ok) (simp_all add: here)
  qed
qed

lemma arrayEntryCheck_true_iff:
  assumes "console_independent (checkFn shape)"
  shows "snd (arrayEntryCheck tn shape e []) = Inr True \<longleftrightarrow>
    snd (checkFn shape (Data e) []) = Inr True"
proof -
  obtain d r where "checkFn shape (Data e) [] = (d, r)" by (cases "checkFn shape (Data e) []")
  then show ?thesis
    by (cases r) (simp_all add: arrayEntryCheck_def)
qed

text \<open>
  C4 (arrays): for a built shape \<open>S\<close>, the check of \<open>array(S)\<close> returns true if and
  only if the input is an array and the check of \<open>S\<close> returns true on every element; it
  returns true on the empty array and false on every input that is not an array, for
  every \<open>S\<close>.
\<close>

theorem array_check_iff:
  "(built S \<longrightarrow>
      (snd (checkFn (array S) input c) = Inr True \<longleftrightarrow>
         isArray input \<and> (\<forall>e \<in> set (elements input). snd (checkFn S (Data e) []) = Inr True)))
   \<and> checkFn (array S) (Data (VArray [])) c = (c, Inr True)
   \<and> (\<not> isArray input \<longrightarrow> snd (checkFn (array S) input c) = Inr False)"
proof -
  have "snd (checkFn (array S) input c) = Inr True \<longleftrightarrow>
      isArray input \<and> (\<forall>e \<in> set (elements input). snd (checkFn S (Data e) []) = Inr True)"
    if b: "built S"
  proof (cases "isArray input")
    case False
    then show ?thesis by (simp add: array_def Let_def arrayCheckFn_def)
  next
    case True
    let ?tn = "''Array<'' @ typename S @ ''>''"
    have ind: "console_independent (checkFn S)" using b by (rule built_console_independent)
    have "snd (every (arrayEntryCheck ?tn S) (elements input) c) = Inr True \<longleftrightarrow>
        (\<forall>e \<in> set (elements input). snd (arrayEntryCheck ?tn S e []) = Inr True)"
      by (rule every_true_iff) (rule arrayEntryCheck_independent [OF ind])
    with True show ?thesis
      by (simp add: array_def Let_def arrayCheckFn_def arrayEntryCheck_true_iff [OF ind])
  qed
  moreover have "checkFn (array S) (Data (VArray [])) c = (c, Inr True)"
    by (simp add: array_def Let_def arrayCheckFn_def isArray_def)
  moreover have "snd (checkFn (array S) input c) = Inr False" if "\<not> isArray input"
    using that by (simp add: array_def Let_def arrayCheckFn_def)
  ultimately show ?thesis by blast
qed

theorem array_check_iff_witness:
  "built string
   \<and> isArray (Data (VArray [VString ''a'', VString ''b'']))
   \<and> snd (checkFn string (Data (VString ''a'')) []) = Inr True
   \<and> snd (checkFn string (Data (VString ''b'')) []) = Inr True
   \<and> snd (checkFn (array string) (Data (VArray [VString ''a'', VString ''b''])) []) = Inr True
   \<and> \<not> isArray (Data (VString ''a''))
   \<and> snd (checkFn (array string) (Data (VString ''a'')) []) = Inr False"
proof -
  have b: "built string" by (rule built_string)
  have arr: "isArray (Data (VArray [VString ''a'', VString ''b'']))"
    and el: "snd (checkFn string (Data (VString ''a'')) []) = Inr True"
      "snd (checkFn string (Data (VString ''b'')) []) = Inr True"
    and na: "\<not> isArray (Data (VString ''a''))"
    by (simp_all add: isArray_def string_def static_def isString_def)
  from array_check_iff [of string "Data (VArray [VString ''a'', VString ''b''])" "[]"] b arr el
  have "snd (checkFn (array string) (Data (VArray [VString ''a'', VString ''b''])) []) = Inr True"
    by simp
  moreover from array_check_iff [of string "Data (VString ''a'')" "[]"] na
  have "snd (checkFn (array string) (Data (VString ''a'')) []) = Inr False"
    by blast
  ultimately show ?thesis using b arr el na by blast
qed

section \<open>Primitive shapes\<close>

lemma typeof_string_iff: "typeof v = ''string'' \<longleftrightarrow> (\<exists>s. v = Data (VString s))"
  by (cases v rule: typeof.cases) simp_all

lemma typeof_boolean_iff: "typeof v = ''boolean'' \<longleftrightarrow> (\<exists>b. v = Data (VBoolean b))"
  by (cases v rule: typeof.cases) simp_all

lemma Number_isFinite_iff: "Number_isFinite v \<longleftrightarrow> (\<exists>q. v = Data (VNumber (Finite q)))"
  by (cases v rule: Number_isFinite.cases) simp_all

text \<open>
  C5 (primitives): the checks of \<open>string()\<close>, \<open>boolean()\<close> and \<open>number()\<close> leave
  the console alone and return true exactly on strings, on booleans and on finite numbers;
  for strings and booleans that is the \<open>typeof\<close> kind, for numbers the \<open>typeof\<close>
  kind less NaN and the two infinities. \<open>number()\<close> returns false on NaN and on both
  infinities and true on 42; \<open>string()\<close> returns false on 42.
\<close>

theorem primitive_checks_exact:
  "checkFn string v c = (c, Inr (\<exists>s. v = Data (VString s)))
   \<and> checkFn boolean v c = (c, Inr (\<exists>b. v = Data (VBoolean b)))
   \<and> checkFn number v c = (c, Inr (\<exists>q. v = Data (VNumber (Finite q))))
   \<and> ((\<exists>s. v = Data (VString s)) \<longleftrightarrow> typeof v = ''string'')
   \<and> ((\<exists>b. v = Data (VBoolean b)) \<longleftrightarrow> typeof v = ''boolean'')
   \<and> ((\<exists>q. v = Data (VNumber (Finite q))) \<longleftrightarrow>
        typeof v = ''number'' \<and> v \<noteq> Data (VNumber NaN) \<and> v \<noteq> Data (VNumber PosInfinity)
        \<and> v \<noteq> Data (VNumber NegInfinity))
   \<and> checkFn number (Data (VNumber NaN)) c = (c, Inr False)
   \<and> checkFn number (Data (VNumber PosInfinity)) c = (c, Inr False)
   \<and> checkFn number (Data (VNumber NegInfinity)) c = (c, Inr False)
   \<and> checkFn number (Data (VNumber (Finite 42))) c = (c, Inr True)
   \<and> checkFn string (Data (VNumber (Finite 42))) c = (c, Inr False)"
proof -
  have num: "(\<exists>q. v = Data (VNumber (Finite q))) \<longleftrightarrow>
        typeof v = ''number'' \<and> v \<noteq> Data (VNumber NaN) \<and> v \<noteq> Data (VNumber PosInfinity)
        \<and> v \<noteq> Data (VNumber NegInfinity)"
  proof (cases v rule: typeof.cases)
    case (4 n)
    then show ?thesis by (cases n) simp_all
  qed simp_all
  show ?thesis
    unfolding num [symmetric]
    by (simp add: string_def boolean_def number_def static_def isString_def isBoolean_def
      isNumber_def typeof_string_iff typeof_boolean_iff Number_isFinite_iff)
qed

section \<open>The optional flag\<close>

lemma built_optional_field:
  assumes "built D"
  shows "(\<exists>S. built S \<and> D = optional S) \<or> optional_field D = None"
  using assms
proof (cases rule: built.cases)
  case (built_object nameOrProps maybeProperties props)
  from built_object(1) obtain tn ps
    where "D = Shape tn (objectCheckFn tn ps) None None None (Some ps)"
    by (rule object_result)
  then show ?thesis by simp
qed (auto simp: string_def number_def boolean_def nullable_def array_def Let_def)

text \<open>
  C6 (optional flag): the \<open>optional\<close> field of a built shape is truthy if and only if
  the shape was returned by the \<open>optional\<close> builder. \<open>optional(S)\<close> sets the field to
  true; the other builders do not set it, so it reads as undefined, also around an
  optional inner shape.
\<close>

theorem optional_only_by_modifier:
  "(built D \<longrightarrow> (truthy (optional_field D) \<longleftrightarrow> (\<exists>S. built S \<and> D = optional S)))
   \<and> optional_field (optional S) = Some True
   \<and> optional_field string = None \<and> optional_field number = None
   \<and> optional_field boolean = None
   \<and> optional_field (nullable S) = None \<and> optional_field (array S) = None
   \<and> (object nameOrProps maybeProperties = Inr D' \<longrightarrow> optional_field D' = None)
   \<and> \<not> truthy (optional_field (nullable (optional S)))
   \<and> \<not> truthy (optional_field (array (optional S)))"
proof -
  have "truthy (optional_field D) \<longleftrightarrow> (\<exists>S. built S \<and> D = optional S)" if "built D"
    using built_optional_field [OF that] by (auto simp: truthy_def optional_def)
  moreover have "optional_field D' = None" if "object nameOrProps maybeProperties = Inr D'"
    using that by (rule object_result) simp
  ultimately show ?thesis
    by (simp add: builder_defs truthy_def)
qed

theorem optional_only_by_modifier_witness:
  "built (optional string) \<and> truthy (optional_field (optional string))
   \<and> (\<exists>S. built S \<and> optional string = optional S)
   \<and> object (Inr []) None = Inr (Shape ''Object'' (objectCheckFn ''Object'' []) None None None (Some []))
   \<and> optional_field (Shape ''Object'' (objectCheckFn ''Object'' []) None None None (Some [])) = None"
proof -
  have b: "built (optional string)" by (intro built.intros)
  have o: "object (Inr []) None = Inr (Shape ''Object'' (objectCheckFn ''Object'' []) None None None (Some []))"
    by (simp add: object_def Let_def)
  have ex: "\<exists>S. built S \<and> optional string = optional S"
    using built_string by blast
  note all = optional_only_by_modifier [of "optional string" string "Inr []" None
      "Shape ''Object'' (objectCheckFn ''Object'' []) None None None (Some [])"]
  from all b have "truthy (optional_field (optional string)) \<longleftrightarrow>
      (\<exists>S. built S \<and> optional string = optional S)"
    by blast
  with ex have t: "truthy (optional_field (optional string))" by blast
  from all o
  have "optional_field (Shape ''Object'' (objectCheckFn ''Object'' []) None None None (Some []))
      = None"
    by blast
  with b t ex o show ?thesis by blast
qed

section \<open>Thrown errors\<close>

text \<open>
  \<open>object\<close> throws exactly when it is given a name and no property map.
\<close>

lemma object_throws_iff:
  "(\<exists>e. object nameOrProps maybeProperties = Inl e) \<longleftrightarrow>
     (\<exists>s. nameOrProps = Inl s) \<and> maybeProperties = None"
  by (auto simp: object_def Let_def split: sum.splits option.splits)

text \<open>
  C7 (thrown errors): a check is claimed to report every non-conforming value as false and
  never to throw. The message of a failed element or property interpolates the failing
  value into a template literal, and that conversion throws for an object with an own
  \<open>toString\<close> property and for a symbol: \<open>array(string())\<close> on
  \<open>[{"toString": 1}]\<close> and on an array holding a symbol, and \<open>object({a: string()})\<close>
  on \<open>{"a": {"toString": 1}}\<close>, throw a TypeError.
\<close>

theorem diagnostic_rendering_throws:
  "checkFn (array string) (Data (VArray [VObject [(''toString'', VNumber (Finite 1))]])) []
     = ([], Inl TypeError)
   \<and> checkFn (array string) (Data (VArray [VSymbol ''s''])) [] = ([], Inl TypeError)
   \<and> (\<exists>D. object (Inr [(''a'', string)]) None = Inr D
      \<and> checkFn D (Data (VObject [(''a'', VObject [(''toString'', VNumber (Finite 1))])])) []
          = ([], Inl TypeError))"
  by (simp add: builder_defs check_defs object_prototype_members_def)

section \<open>The example program\<close>

text \<open>
  C8 (end-to-end scenario): the \<open>User\<close> shape of the example program returns true on
  the parsed literal, false without \<open>hasSignedIn\<close>, false with the string \<open>"29"\<close> as
  \<open>age\<close>, and false with the extra key \<open>extra\<close>.
\<close>

theorem user_scenario:
  "\<exists>D. User = Inr D
    \<and> checkFn D parsed c = (c, Inr True)
    \<and> checkFn D (Data (VObject
         [(''name'', VString ''jakob''), (''age'', VNumber (Finite 29)),
          (''permissions'', VArray [VString ''developer'', VString ''admin''])])) c
       = (c @ [MissingProperty ''User'' ''hasSignedIn'' ''boolean''], Inr False)
    \<and> checkFn D (Data (VObject
         [(''name'', VString ''jakob''), (''age'', VString ''29''),
          (''hasSignedIn'', VBoolean True),
          (''permissions'', VArray [VString ''developer'', VString ''admin''])])) c
       = (c @ [BadProperty ''User'' ''age'' (Data (VString ''29'')) ''string'' ''number''],
          Inr False)
    \<and> checkFn D (Data (VObject
         [(''name'', VString ''jakob''), (''age'', VNumber (Finite 29)),
          (''hasSignedIn'', VBoolean True),
          (''permissions'', VArray [VString ''developer'', VString ''admin'']),
          (''extra'', VNumber (Finite 1))])) c
       = (c @ [UnknownProperty ''User'' ''extra''], Inr False)"
  by (simp add: User_def parsed_def builder_defs check_defs object_prototype_members_def)

section \<open>Determinism\<close>

text \<open>
  Run from two consoles, the check of a built shape gives the same outcome (a boolean or
  a thrown error) and appends the same messages: no check reads the console.
\<close>

lemma outcome_independent_of_console:
  assumes "built D"
  shows "snd (checkFn D v c1) = snd (checkFn D v c2)
    \<and> (\<exists>ds. fst (checkFn D v c1) = c1 @ ds \<and> fst (checkFn D v c2) = c2 @ ds)"
proof -
  from built_console_independent [OF assms]
  have "\<exists>d r. \<forall>c. checkFn D v c = (c @ d, r)" by (rule console_independentD)
  then obtain d r where "\<And>c. checkFn D v c = (c @ d, r)" by blast
  then show ?thesis by simp
qed

text \<open>
  C9 (determinism): two checks of the same value against the same shape are claimed to
  yield the same boolean, with the diagnostic output never influencing the verdict. On
  \<open>[{"toString": 1}]\<close> the check of \<open>array(string())\<close> yields no boolean from any
  console: the element fails the string check, which alone returns false, and rendering
  the element into the message throws a TypeError in place of the verdict false. On
  \<open>[{"name": 1}]\<close>, whose element fails the same way but can be rendered, the check
  warns and returns false.
\<close>

theorem diagnostic_rendering_replaces_verdict:
  "checkFn string (Data (VObject [(''toString'', VNumber (Finite 1))])) c = (c, Inr False)
   \<and> template_throws (Data (VObject [(''toString'', VNumber (Finite 1))]))
   \<and> checkFn (array string) (Data (VArray [VObject [(''toString'', VNumber (Finite 1))]])) c
       = (c, Inl TypeError)
   \<and> checkFn string (Data (VObject [(''name'', VNumber (Finite 1))])) c = (c, Inr False)
   \<and> \<not> template_throws (Data (VObject [(''name'', VNumber (Finite 1))]))
   \<and> checkFn (array string) (Data (VArray [VObject [(''name'', VNumber (Finite 1))]])) c
       = (c @ [BadElement ''Array<string>'' (VObject [(''name'', VNumber (Finite 1))])
                 ''object'' ''string''], Inr False)"
  by (simp add: builder_defs check_defs)

section \<open>Inherited property names\<close>

text \<open>Every property map has the member names of \<open>Object.prototype\<close>.\<close>

lemma inherited_member_in_every_map:
  "key \<in> set object_prototype_members \<Longrightarrow> has_property key obj"
  by (simp add: has_property_def)

text \<open>
  C10 (inherited names): an input key that is a member name of \<open>Object.prototype\<close>
  passes the unknown-key test of every property map, and its value is never checked:
  \<open>object({a: string()})\<close> returns true on \<open>{a: "x", k: w}\<close> for every such name
  \<open>k\<close> and every value \<open>w\<close>, emitting no message.
\<close>

theorem inherited_name_accepted:
  assumes "k \<in> set object_prototype_members"
  shows "\<exists>D. object (Inr [(''a'', string)]) None = Inr D
    \<and> checkFn D (Data (VObject [(''a'', VString ''x''), (k, w)])) c = (c, Inr True)"
  using assms by (simp add: builder_defs check_defs)

theorem inherited_name_accepted_witness:
  "''toString'' \<in> set object_prototype_members
   \<and> (\<exists>D. object (Inr [(''a'', string)]) None = Inr D
      \<and> checkFn D (Data (VObject [(''a'', VString ''x''), (''toString'', VNumber (Finite 1))])) []
          = ([], Inr True))"
proof -
  have m: "''toString'' \<in> set object_prototype_members"
    by (simp add: object_prototype_members_def)
  from inherited_name_accepted [OF m, of "VNumber (Finite 1)" "[]"] m show ?thesis by blast
qed

end
